theory Spec2Isabelle
  imports Main "HOL-Library.Sublist" "HOL-Library.Multiset"
begin

section \<open>Strings\<close>

text \<open>
  Strings are character lists, and a character is a code point below 256. The program
  lowers case in two ways, and they differ.

  \<open>lower\<close> is SQLite's \<open>lower()\<close> (\<open>func.lower\<close> in the queries): it maps the letters
  A to Z to a to z and leaves every other character alone.

  \<open>str_lower\<close> is Python's \<open>str.lower()\<close>: on these code points it maps A to Z, and also
  the capital letters 192 to 222 except the multiplication sign 215, to the code point 32
  higher.

  \<open>strip\<close> is Python's \<open>str.strip()\<close> with no argument: it removes the leading and the
  trailing white space, which is tab, line feed, vertical tab, form feed, carriage return,
  the four separators 28 to 31, the space, the next-line control 133 and the no-break
  space 160.
\<close>

definition lower_char :: "char \<Rightarrow> char" where
  "lower_char c =
     (let n = (of_char c :: nat) in if 65 \<le> n \<and> n \<le> 90 then char_of (n + 32) else c)"

definition lower :: "string \<Rightarrow> string" where
  "lower s = map lower_char s"

definition str_lower_char :: "char \<Rightarrow> char" where
  "str_lower_char c =
     (let n = (of_char c :: nat)
      in if (65 \<le> n \<and> n \<le> 90) \<or> (192 \<le> n \<and> n \<le> 222 \<and> n \<noteq> 215)
         then char_of (n + 32) else c)"

definition str_lower :: "string \<Rightarrow> string" where
  "str_lower s = map str_lower_char s"

definition isspace :: "char \<Rightarrow> bool" where
  "isspace c =
     (let n = (of_char c :: nat)
      in (9 \<le> n \<and> n \<le> 13) \<or> (28 \<le> n \<and> n \<le> 32) \<or> n = 133 \<or> n = 160)"

definition strip :: "string \<Rightarrow> string" where
  "strip s = rev (dropWhile isspace (rev (dropWhile isspace s)))"

text \<open>Python's \<open>str(n)\<close> for an integer: decimal digits, with a minus sign when negative.\<close>

definition digit_char :: "nat \<Rightarrow> char" where
  "digit_char d = char_of (48 + d)"

fun str_nat :: "nat \<Rightarrow> string" where
  "str_nat n = (if n < 10 then [digit_char n] else str_nat (n div 10) @ [digit_char (n mod 10)])"

declare str_nat.simps [simp del]

definition str_int :: "int \<Rightarrow> string" where
  "str_int i = (if i < 0 then CHR ''-'' # str_nat (nat (- i)) else str_nat (nat i))"

section \<open>Models (the three tables)\<close>

text \<open>
  One record per \<open>db.Model\<close> class. A column declared without \<open>nullable=False\<close> holds an
  optional value. The primary key \<open>id\<close> of each class keeps its own field name
  (\<open>user_id\<close>, \<open>job_id\<close>, \<open>app_id\<close>); \<open>Application.job_id\<close> is \<open>app_job_id\<close>. Time stamps
  are integers (a reading of the clock).
\<close>

record user =
  user_id :: nat
  fullname :: string
  email :: string
  password_hash :: string
  is_admin :: bool
  is_employer :: bool
  user_created_at :: int

record job =
  job_id :: nat
  job_title :: string
  company :: string
  salary :: "string option"
  description :: string
  location :: "string option"
  job_type :: "string option"
  created_at :: int
  posted_by_id :: "nat option"

record application =
  app_id :: nat
  applicant_id :: nat
  app_job_id :: nat
  cover_letter :: "string option"
  resume_path :: "string option"
  app_created_at :: int

text \<open>
  The persisted state: the three tables in insertion order, and the upload directory as
  an association list from file name to contents (the first entry of a name is the file).
\<close>

record db =
  users :: "user list"
  jobs :: "job list"
  applications :: "application list"
  uploads :: "(string \<times> string) list"

text \<open>
  An integer primary key without AUTOINCREMENT: SQLite gives a new row the largest
  existing key plus one.
\<close>

definition next_id :: "nat list \<Rightarrow> nat" where
  "next_id ids = Suc (fold max ids 0)"

section \<open>Requests and responses\<close>

datatype http_method = GET | POST

record file_storage =
  filename :: string
  content :: string

text \<open>
  \<open>request.args\<close>, \<open>request.form\<close> and \<open>request.files\<close> are multi-dictionaries: \<open>get\<close>
  returns the first value stored under the key, or the default.
\<close>

record request =
  req_method :: http_method
  args :: "(string \<times> string) list"
  form :: "(string \<times> string) list"
  files :: "(string \<times> file_storage) list"

definition get_default :: "(string \<times> string) list \<Rightarrow> string \<Rightarrow> string \<Rightarrow> string" where
  "get_default d k dflt = (case map_of d k of None \<Rightarrow> dflt | Some v \<Rightarrow> v)"

definition get_default_opt ::
  "(string \<times> string) list \<Rightarrow> string \<Rightarrow> string option \<Rightarrow> string option" where
  "get_default_opt d k dflt = (case map_of d k of None \<Rightarrow> dflt | Some v \<Rightarrow> Some v)"

text \<open>
  The failures of a request, in the taxonomy of the specification. A handler that flashes
  a message and redirects because the request is refused returns the matching error;
  \<open>abort(403)\<close> is \<open>Forbidden\<close>, \<open>get_or_404\<close> is \<open>NotFound\<close>, a route called with a method
  it does not list is \<open>MethodNotAllowed\<close>, and an uncaught \<open>AttributeError\<close> (a method
  called on \<open>None\<close>) is \<open>AttributeError\<close>.
\<close>

datatype error =
  ValidationError | Unauthorized | Forbidden | NotFound | Conflict
  | MethodNotAllowed | AttributeError

datatype response =
  Render_template string
  | Redirect string "nat option"

type_synonym result = "error + response"

section \<open>Login\<close>

text \<open>
  The session holds the id of the logged-in user, if any. \<open>load_user\<close> is
  \<open>User.query.get(int(user_id))\<close>; \<open>current_user\<close> is the row it returns, and is anonymous
  when the session is empty or the row is gone.
\<close>

definition load_user :: "db \<Rightarrow> nat \<Rightarrow> user option" where
  "load_user d uid = find (\<lambda>u. user_id u = uid) (users d)"

definition current_user :: "nat option \<Rightarrow> db \<Rightarrow> user option" where
  "current_user sess d = (case sess of None \<Rightarrow> None | Some uid \<Rightarrow> load_user d uid)"

section \<open>Helpers\<close>

definition ALLOWED_EXTENSIONS :: "string set" where
  "ALLOWED_EXTENSIONS = {''pdf'', ''doc'', ''docx''}"

text \<open>\<open>filename.rsplit(".", 1)[1]\<close>, for a file name that has a dot: what follows the last dot.\<close>

definition rsplit_last :: "string \<Rightarrow> string" where
  "rsplit_last s = rev (takeWhile (\<lambda>c. c \<noteq> CHR ''.'') (rev s))"

definition allowed_file :: "string \<Rightarrow> bool" where
  "allowed_file fn = (CHR ''.'' \<in> set fn \<and> str_lower (rsplit_last fn) \<in> ALLOWED_EXTENSIONS)"

section \<open>Persistence: cascading delete\<close>

text \<open>
  \<open>db.session.delete(job)\<close> followed by \<open>commit\<close>. The relationship \<open>Application.job\<close>
  declares the back reference \<open>Job.applications\<close> with \<open>cascade="all, delete-orphan"\<close>:
  the applications of the job are deleted with it.
\<close>

definition session_delete_job :: "nat \<Rightarrow> db \<Rightarrow> db" where
  "session_delete_job jid d =
     d\<lparr>applications := filter (\<lambda>a. app_job_id a \<noteq> jid) (applications d),
       jobs := filter (\<lambda>j. job_id j \<noteq> jid) (jobs d)\<rparr>"

text \<open>
  \<open>db.session.delete(user)\<close> followed by \<open>commit\<close>. The back references
  \<open>User.posted_jobs\<close> (from \<open>Job.posted_by\<close>) and \<open>User.applications\<close> (from
  \<open>Application.applicant\<close>) both cascade: each job the user posted is deleted as a job
  (with its applications), then the applications the user submitted, then the row.
\<close>

definition posted_jobs :: "nat \<Rightarrow> db \<Rightarrow> job list" where
  "posted_jobs uid d = filter (\<lambda>j. posted_by_id j = Some uid) (jobs d)"

definition session_delete_user :: "nat \<Rightarrow> db \<Rightarrow> db" where
  "session_delete_user uid d =
     (let d1 = fold session_delete_job (map job_id (posted_jobs uid d)) d;
          d2 = d1\<lparr>applications := filter (\<lambda>a. applicant_id a \<noteq> uid) (applications d1)\<rparr>
      in d2\<lparr>users := filter (\<lambda>u. user_id u \<noteq> uid) (users d2)\<rparr>)"

section \<open>Routes\<close>

subsection \<open>The job list\<close>

text \<open>
  SQL \<open>LIKE\<close> as SQLite computes it. It reads the pattern and the text as C strings: each
  ends at its first NUL character (\<open>c_str\<close>). \<open>pattern_compare\<close> then walks through the
  two: in the pattern, \<open>%\<close> stands for any run of characters (also none) and \<open>_\<close> for
  exactly one character; every other character stands for itself. The first argument is
  the pattern. \<open>ilike\<close> is what SQLAlchemy sends to SQLite for \<open>column.ilike(pattern)\<close>:
  \<open>lower(column) LIKE lower(pattern)\<close>.
\<close>

definition c_str :: "string \<Rightarrow> string" where
  "c_str s = takeWhile (\<lambda>c. c \<noteq> CHR 0x00) s"

fun pattern_compare :: "string \<Rightarrow> string \<Rightarrow> bool" where
  "pattern_compare [] [] = True"
| "pattern_compare [] (c # cs) = False"
| "pattern_compare (p # ps) [] = (p = CHR ''%'' \<and> pattern_compare ps [])"
| "pattern_compare (p # ps) (c # cs) =
     (if p = CHR ''%'' then pattern_compare ps (c # cs) \<or> pattern_compare (p # ps) cs
      else (p = CHR ''_'' \<or> p = c) \<and> pattern_compare ps cs)"

definition like :: "string \<Rightarrow> string \<Rightarrow> bool" where
  "like pat s = pattern_compare (c_str pat) (c_str s)"

definition ilike :: "string \<Rightarrow> string \<Rightarrow> bool" where
  "ilike col pat = like (lower pat) (lower col)"

text \<open>
  \<open>func.lower(column) == func.lower(value)\<close> on a column that may hold NULL: a NULL
  never compares equal.
\<close>

definition lower_eq_opt :: "string option \<Rightarrow> string \<Rightarrow> bool" where
  "lower_eq_opt col v = (case col of None \<Rightarrow> False | Some c \<Rightarrow> lower c = lower v)"

text \<open>\<open>order_by(Job.created_at.desc())\<close>: a sort on the negated time stamp.\<close>

definition order_by_created_at_desc :: "job list \<Rightarrow> job list" where
  "order_by_created_at_desc js = sort_key (\<lambda>j. - created_at j) js"

text \<open>
  \<open>SELECT DISTINCT\<close> over a table: SQLite scans the rows in key order and yields each
  value where it first occurs.
\<close>

definition distinct_values :: "'a list \<Rightarrow> 'a list" where
  "distinct_values xs = rev (remdups (rev xs))"

text \<open>
  \<open>index\<close> returns what it hands to the template: the jobs, and the distinct companies
  and job types of the whole table for the drop-down lists.
\<close>

definition index :: "request \<Rightarrow> db \<Rightarrow> job list \<times> string list \<times> string list" where
  "index req d =
     (let q = strip (get_default (args req) ''q'' []);
          company_f = strip (get_default (args req) ''company'' []);
          location_f = strip (get_default (args req) ''location'' []);
          job_type_f = strip (get_default (args req) ''job_type'' []);
          query0 = jobs d;
          query1 = (if q \<noteq> [] then
                      (let q_like = ''%'' @ q @ ''%''
                       in filter (\<lambda>j. ilike (job_title j) q_like \<or> ilike (description j) q_like)
                            query0)
                    else query0);
          query2 = (if company_f \<noteq> [] then
                      filter (\<lambda>j. lower (company j) = lower company_f) query1
                    else query1);
          query3 = (if location_f \<noteq> [] then
                      filter (\<lambda>j. lower_eq_opt (location j) location_f) query2
                    else query2);
          query4 = (if job_type_f \<noteq> [] then
                      filter (\<lambda>j. lower_eq_opt (job_type j) job_type_f) query3
                    else query3);
          companies = distinct_values (map company (jobs d));
          job_types = distinct_values (List.map_filter job_type (jobs d))
      in (order_by_created_at_desc query4, companies, job_types))"

subsection \<open>Registration\<close>

text \<open>
  \<open>register\<close> takes the password hashing function of the library, the session, the
  request, the clock and the state; it returns the result, the session (\<open>login_user\<close>
  stores the new user's id there) and the state. The email is trimmed and lowered by
  Python (\<open>str_lower\<close>). \<open>request.form.get("email")\<close> has no
  default: without the field it is \<open>None\<close>, and \<open>.strip()\<close> raises. The insert cannot
  violate the unique index on \<open>email\<close>: the lookup of the same value has just found no row.
\<close>

definition register ::
  "(string \<Rightarrow> string) \<Rightarrow> nat option \<Rightarrow> request \<Rightarrow> int \<Rightarrow> db \<Rightarrow> result \<times> nat option \<times> db" where
  "register generate_password_hash sess req now d =
     (if current_user sess d \<noteq> None then (Inr (Redirect ''index'' None), sess, d)
      else if req_method req = POST then
        (let fullname_v = strip (get_default (form req) ''fullname'' [])
         in case map_of (form req) ''email'' of
              None \<Rightarrow> (Inl AttributeError, sess, d)
            | Some e \<Rightarrow>
               (let email_v = str_lower (strip e);
                    password = get_default (form req) ''password'' [];
                    confirm = get_default (form req) ''confirm'' []
                in if fullname_v = [] \<or> email_v = [] \<or> password = [] \<or> confirm = []
                   then \<comment> \<open>Please fill all the required fields.\<close>
                     (Inl ValidationError, sess, d)
                   else if password \<noteq> confirm
                   then \<comment> \<open>Passwords do not match.\<close>
                     (Inl ValidationError, sess, d)
                   else
                    (let is_employer_flag = (map_of (form req) ''is_employer'' = Some ''on'')
                     in if find (\<lambda>u. email u = email_v) (users d) \<noteq> None
                        then \<comment> \<open>Email already registered. Please log in.\<close>
                          (Inl Conflict, sess, d)
                        else
                         (let u = \<lparr>user_id = next_id (map user_id (users d)),
                                   fullname = fullname_v,
                                   email = email_v,
                                   password_hash = generate_password_hash password,
                                   is_admin = False,
                                   is_employer = is_employer_flag,
                                   user_created_at = now\<rparr>
                          in (Inr (Redirect ''index'' None), Some (user_id u),
                              d\<lparr>users := users d @ [u]\<rparr>)))))
      else (Inr (Render_template ''register.html''), sess, d))"

subsection \<open>Job CRUD\<close>

definition create_job :: "nat option \<Rightarrow> request \<Rightarrow> int \<Rightarrow> db \<Rightarrow> result \<times> db" where
  "create_job sess req now d =
     (case current_user sess d of
        None \<Rightarrow> (Inl Unauthorized, d)
      | Some cu \<Rightarrow>
         if \<not> (is_employer cu \<or> is_admin cu)
         then \<comment> \<open>Only employers can post jobs.\<close>
           (Inl Forbidden, d)
         else if req_method req = POST then
           (let title = strip (get_default (form req) ''job_title'' []);
                company_v = strip (get_default (form req) ''company'' []);
                salary_v = strip (get_default (form req) ''salary'' []);
                description_v = strip (get_default (form req) ''description'' []);
                location_v = strip (get_default (form req) ''location'' []);
                job_type_v = strip (get_default (form req) ''job_type'' [])
            in if title = [] \<or> company_v = [] \<or> description_v = []
               then \<comment> \<open>Please fill Title, Company and Description.\<close>
                 (Inl ValidationError, d)
               else
                (let j = \<lparr>job_id = next_id (map job_id (jobs d)),
                          job_title = title,
                          company = company_v,
                          salary = Some salary_v,
                          description = description_v,
                          location = Some location_v,
                          job_type = Some job_type_v,
                          created_at = now,
                          posted_by_id = Some (user_id cu)\<rparr>
                 in (Inr (Redirect ''job_detail'' (Some (job_id j))), d\<lparr>jobs := jobs d @ [j]\<rparr>)))
         else (Inr (Render_template ''create_job.html''), d))"

text \<open>
  \<open>edit_job\<close>: each field is \<open>request.form.get(name, current value).strip()\<close>. For a
  nullable column whose value is NULL and whose field is absent, \<open>.strip()\<close> is called
  on \<open>None\<close> and raises; the request ends there and nothing is committed.
\<close>

definition strip_opt :: "string option \<Rightarrow> error + string" where
  "strip_opt v = (case v of None \<Rightarrow> Inl AttributeError | Some s \<Rightarrow> Inr (strip s))"

definition update_job :: "job \<Rightarrow> db \<Rightarrow> db" where
  "update_job j d = d\<lparr>jobs := map (\<lambda>x. if job_id x = job_id j then j else x) (jobs d)\<rparr>"

definition edit_job :: "nat option \<Rightarrow> nat \<Rightarrow> request \<Rightarrow> db \<Rightarrow> result \<times> db" where
  "edit_job sess jid req d =
     (case current_user sess d of
        None \<Rightarrow> (Inl Unauthorized, d)
      | Some cu \<Rightarrow>
         (case find (\<lambda>j. job_id j = jid) (jobs d) of
            None \<Rightarrow> (Inl NotFound, d)
          | Some j \<Rightarrow>
             if posted_by_id j \<noteq> Some (user_id cu) \<and> \<not> is_admin cu
             then \<comment> \<open>You are not allowed to edit this job.\<close>
               (Inl Forbidden, d)
             else if req_method req = POST then
               (let title = strip (get_default (form req) ''job_title'' (job_title j));
                    company_v = strip (get_default (form req) ''company'' (company j))
                in case strip_opt (get_default_opt (form req) ''salary'' (salary j)) of
                     Inl e \<Rightarrow> (Inl e, d)
                   | Inr salary_v \<Rightarrow>
                 (case strip_opt (get_default_opt (form req) ''location'' (location j)) of
                     Inl e \<Rightarrow> (Inl e, d)
                   | Inr location_v \<Rightarrow>
                 (case strip_opt (get_default_opt (form req) ''job_type'' (job_type j)) of
                     Inl e \<Rightarrow> (Inl e, d)
                   | Inr job_type_v \<Rightarrow>
                 (let description_v = strip (get_default (form req) ''description'' (description j));
                      j' = j\<lparr>job_title := title, company := company_v, salary := Some salary_v,
                             location := Some location_v, job_type := Some job_type_v,
                             description := description_v\<rparr>
                  in (Inr (Redirect ''job_detail'' (Some (job_id j))), update_job j' d)))))
             else (Inr (Render_template ''edit_job.html''), d)))"

definition delete_job :: "nat option \<Rightarrow> nat \<Rightarrow> request \<Rightarrow> db \<Rightarrow> result \<times> db" where
  "delete_job sess jid req d =
     (if req_method req \<noteq> POST then (Inl MethodNotAllowed, d)
      else case current_user sess d of
        None \<Rightarrow> (Inl Unauthorized, d)
      | Some cu \<Rightarrow>
         (case find (\<lambda>j. job_id j = jid) (jobs d) of
            None \<Rightarrow> (Inl NotFound, d)
          | Some j \<Rightarrow>
             if posted_by_id j \<noteq> Some (user_id cu) \<and> \<not> is_admin cu
             then \<comment> \<open>You are not allowed to delete this job.\<close>
               (Inl Forbidden, d)
             else (Inr (Redirect ''index'' None), session_delete_job (job_id j) d)))"

subsection \<open>Apply\<close>

text \<open>
  \<open>apply\<close> of the source (the name is an Isabelle command). It takes the library's
  \<open>secure_filename\<close>, the session, the job id, the request, the integer time stamp that
  goes into the file name, the clock for \<open>created_at\<close>, and the state.
  \<open>resume_file and resume_file.filename\<close> holds when a file with a non-empty name came
  with the request.
\<close>

definition insert_application ::
  "user \<Rightarrow> job \<Rightarrow> string \<Rightarrow> string option \<Rightarrow> int \<Rightarrow> db \<Rightarrow> db" where
  "insert_application cu j cover_letter_v resume_filename now d =
     d\<lparr>applications := applications d @
          [\<lparr>app_id = next_id (map app_id (applications d)),
            applicant_id = user_id cu,
            app_job_id = job_id j,
            cover_letter = Some cover_letter_v,
            resume_path = resume_filename,
            app_created_at = now\<rparr>]\<rparr>"

definition apply_route ::
  "(string \<Rightarrow> string) \<Rightarrow> nat option \<Rightarrow> nat \<Rightarrow> request \<Rightarrow> int \<Rightarrow> int \<Rightarrow> db \<Rightarrow> result \<times> db" where
  "apply_route secure_filename sess jid req stamp now d =
     (case current_user sess d of
        None \<Rightarrow> (Inl Unauthorized, d)
      | Some cu \<Rightarrow>
         (case find (\<lambda>j. job_id j = jid) (jobs d) of
            None \<Rightarrow> (Inl NotFound, d)
          | Some j \<Rightarrow>
             if find (\<lambda>a. app_job_id a = job_id j \<and> applicant_id a = user_id cu) (applications d)
                  \<noteq> None
             then \<comment> \<open>You have already applied to this job.\<close>
               (Inl Conflict, d)
             else if req_method req = POST then
               (let cover_letter_v = strip (get_default (form req) ''cover_letter'' []);
                    resume_file = map_of (files req) ''resume''
                in case resume_file of
                     None \<Rightarrow>
                       (Inr (Redirect ''job_detail'' (Some (job_id j))),
                        insert_application cu j cover_letter_v None now d)
                   | Some f \<Rightarrow>
                       if filename f \<noteq> [] then
                         (if allowed_file (filename f) then
                            (let fname = secure_filename
                                   (str_nat (user_id cu) @ ''_'' @ str_int stamp @ ''_'' @ filename f);
                                 d1 = d\<lparr>uploads := (fname, content f) # uploads d\<rparr>
                             in (Inr (Redirect ''job_detail'' (Some (job_id j))),
                                 insert_application cu j cover_letter_v (Some fname) now d1))
                          else \<comment> \<open>Invalid resume format. Allowed: pdf, doc, docx\<close>
                            (Inl ValidationError, d))
                       else
                         (Inr (Redirect ''job_detail'' (Some (job_id j))),
                          insert_application cu j cover_letter_v None now d))
             else (Inr (Render_template ''apply.html''), d)))"

subsection \<open>Admin\<close>

text \<open>
  \<open>login_required\<close> runs first, then \<open>admin_required\<close> (\<open>abort(403)\<close> unless the current
  user has \<open>is_admin\<close>), then the handler. Both routes list POST only.
\<close>

definition admin_delete_user :: "nat option \<Rightarrow> nat \<Rightarrow> request \<Rightarrow> db \<Rightarrow> result \<times> db" where
  "admin_delete_user sess uid req d =
     (if req_method req \<noteq> POST then (Inl MethodNotAllowed, d)
      else case current_user sess d of
        None \<Rightarrow> (Inl Unauthorized, d)
      | Some cu \<Rightarrow>
         if \<not> is_admin cu then (Inl Forbidden, d)
         else
          (case find (\<lambda>u. user_id u = uid) (users d) of
             None \<Rightarrow> (Inl NotFound, d)
           | Some u \<Rightarrow>
              if user_id u = user_id cu
              then \<comment> \<open>you cannot delete your own admin account.\<close>
                (Inl Conflict, d)
              else (Inr (Redirect ''admin_users'' None), session_delete_user (user_id u) d)))"

definition admin_delete_job :: "nat option \<Rightarrow> nat \<Rightarrow> request \<Rightarrow> db \<Rightarrow> result \<times> db" where
  "admin_delete_job sess jid req d =
     (if req_method req \<noteq> POST then (Inl MethodNotAllowed, d)
      else case current_user sess d of
        None \<Rightarrow> (Inl Unauthorized, d)
      | Some cu \<Rightarrow>
         if \<not> is_admin cu then (Inl Forbidden, d)
         else
          (case find (\<lambda>j. job_id j = jid) (jobs d) of
             None \<Rightarrow> (Inl NotFound, d)
           | Some j \<Rightarrow> (Inr (Redirect ''admin_jobs'' None), session_delete_job (job_id j) d)))"

section \<open>Properties of a state, and the job filters as the specification words them\<close>

text \<open>The primary keys of a table are distinct.\<close>

definition primary_keys :: "db \<Rightarrow> bool" where
  "primary_keys d =
     (distinct (map user_id (users d)) \<and> distinct (map job_id (jobs d))
      \<and> distinct (map app_id (applications d)))"

text \<open>Title, company and description of a job are not empty.\<close>

definition job_filled :: "job \<Rightarrow> bool" where
  "job_filled j = (job_title j \<noteq> [] \<and> company j \<noteq> [] \<and> description j \<noteq> [])"

text \<open>The applications of one applicant to one job.\<close>

definition applications_of :: "nat \<Rightarrow> nat \<Rightarrow> db \<Rightarrow> application list" where
  "applications_of uid jid d =
     filter (\<lambda>a. applicant_id a = uid \<and> app_job_id a = jid) (applications d)"






section \<open>An example state\<close>

text \<open>
  The scenario of the specification: the site administrator, the employer Alice who
  posted the job "Backend Engineer" at "Acme", and the applicant Bob.
\<close>

definition site_admin :: user where
  "site_admin = \<lparr>user_id = 1, fullname = ''Site Admin'', email = ''admin@gmail.com'',
     password_hash = ''#1'', is_admin = True, is_employer = True, user_created_at = 1\<rparr>"

definition alice :: user where
  "alice = \<lparr>user_id = 2, fullname = ''Alice'', email = ''alice@x.com'',
     password_hash = ''#2'', is_admin = False, is_employer = True, user_created_at = 2\<rparr>"

definition bob :: user where
  "bob = \<lparr>user_id = 3, fullname = ''Bob'', email = ''bob@x.com'',
     password_hash = ''#3'', is_admin = False, is_employer = False, user_created_at = 3\<rparr>"

definition backend_job :: job where
  "backend_job = \<lparr>job_id = 1, job_title = ''Backend Engineer'', company = ''Acme'',
     salary = Some [], description = ''Build services'', location = Some ''Pune'',
     job_type = Some ''Full-time'', created_at = 4, posted_by_id = Some 2\<rparr>"

definition bob_application :: application where
  "bob_application = \<lparr>app_id = 1, applicant_id = 3, app_job_id = 1, cover_letter = Some ''Hi'',
     resume_path = None, app_created_at = 5\<rparr>"

definition db0 :: db where
  "db0 = \<lparr>users = [site_admin, alice, bob], jobs = [backend_job], applications = [],
     uploads = []\<rparr>"

definition db1 :: db where
  "db1 = db0\<lparr>applications := [bob_application]\<rparr>"

text \<open>A larger state: a second job, posted by the administrator, and three applications.\<close>

definition frontend_job :: job where
  "frontend_job = \<lparr>job_id = 2, job_title = ''Frontend Engineer'', company = ''Initech'',
     salary = Some ''10'', description = ''Build pages'', location = None,
     job_type = Some ''Part-time'', created_at = 6, posted_by_id = Some 1\<rparr>"

definition bob_second_application :: application where
  "bob_second_application = \<lparr>app_id = 2, applicant_id = 3, app_job_id = 2,
     cover_letter = Some [], resume_path = None, app_created_at = 7\<rparr>"

definition alice_application :: application where
  "alice_application = \<lparr>app_id = 3, applicant_id = 2, app_job_id = 2,
     cover_letter = Some ''Hello'', resume_path = Some ''2_8_cv.pdf'', app_created_at = 8\<rparr>"

definition db2 :: db where
  "db2 = \<lparr>users = [site_admin, alice, bob], jobs = [backend_job, frontend_job],
     applications = [bob_application, bob_second_application, alice_application],
     uploads = [(''2_8_cv.pdf'', ''...'')]\<rparr>"

text \<open>Two jobs created at the same instant.\<close>

definition tied_job :: job where
  "tied_job = \<lparr>job_id = 2, job_title = ''Tester'', company = ''Acme'',
     salary = Some [], description = ''Test services'', location = Some ''Pune'',
     job_type = Some ''Full-time'', created_at = 4, posted_by_id = Some 2\<rparr>"

definition db_tie :: db where
  "db_tie = db0\<lparr>jobs := [backend_job, tied_job]\<rparr>"

definition post_request :: "(string \<times> string) list \<Rightarrow> request" where
  "post_request kvs = \<lparr>req_method = POST, args = [], form = kvs, files = []\<rparr>"

definition upload_request :: "string \<Rightarrow> request" where
  "upload_request name =
     \<lparr>req_method = POST, args = [], form = [(''cover_letter'', ''Hi'')],
      files = [(''resume'', \<lparr>filename = name, content = ''...''\<rparr>)]\<rparr>"

text \<open>Stand-ins for the two library functions the routes take as parameters.\<close>

definition example_hash :: "string \<Rightarrow> string" where
  "example_hash pwd = ''hash:'' @ pwd"

definition example_secure_filename :: "string \<Rightarrow> string" where
  "example_secure_filename name = filter (\<lambda>c. c \<noteq> CHR ''/'') name"

text \<open>Two registrations whose emails differ in letter case and white space only.\<close>

definition eva_request :: request where
  "eva_request = \<lparr>req_method = POST, args = [],
     form = [(''fullname'', ''Eva''), (''email'', CHR 0xA0 # CHR 0xC9 # ''va@X.com ''),
             (''password'', ''secret''), (''confirm'', ''secret'')], files = []\<rparr>"

definition eva_again_request :: request where
  "eva_again_request = \<lparr>req_method = POST, args = [],
     form = [(''fullname'', ''Eva Again''), (''email'', CHR 0xE9 # ''VA@x.COM''),
             (''password'', ''other''), (''confirm'', ''other'')], files = []\<rparr>"

definition search_request :: "(string \<times> string) list \<Rightarrow> request" where
  "search_request params = \<lparr>req_method = GET, args = params, form = [], files = []\<rparr>"

section \<open>Strings: lower case and trimming\<close>

lemma of_char_lower_char:
  "of_char (lower_char c) =
     (let n = (of_char c :: nat) in if 65 \<le> n \<and> n \<le> 90 then n + 32 else n)"
  by (simp add: lower_char_def Let_def)

lemma lower_char_idem: "lower_char (lower_char c) = lower_char c"
proof (cases "65 \<le> (of_char c :: nat) \<and> (of_char c :: nat) \<le> 90")
  case True
  then have "(of_char (lower_char c) :: nat) = of_char c + 32"
    by (simp add: of_char_lower_char)
  with True have
    "\<not> (65 \<le> (of_char (lower_char c) :: nat) \<and> (of_char (lower_char c) :: nat) \<le> 90)"
    by simp
  then show ?thesis
    unfolding lower_char_def [of "lower_char c"] Let_def by presburger
next
  case False
  then show ?thesis by (auto simp add: lower_char_def Let_def)
qed

lemma lower_idem: "lower (lower s) = lower s"
  by (simp add: lower_def lower_char_idem)

lemma isspace_lower_char: "isspace (lower_char c) = isspace c"
  by (auto simp add: isspace_def of_char_lower_char Let_def)

lemma dropWhile_isspace_lower: "dropWhile isspace (lower s) = lower (dropWhile isspace s)"
  by (induction s) (simp_all add: lower_def isspace_lower_char)

lemma rev_lower: "rev (lower s) = lower (rev s)"
  by (simp add: lower_def rev_map)

lemma strip_lower: "strip (lower s) = lower (strip s)"
  by (simp add: strip_def dropWhile_isspace_lower rev_lower)


text \<open>Python's lowering: idempotent, and equal to the database's wherever the result is ASCII.\<close>

lemma of_char_str_lower_char:
  "of_char (str_lower_char c) =
     (let n = (of_char c :: nat)
      in if (65 \<le> n \<and> n \<le> 90) \<or> (192 \<le> n \<and> n \<le> 222 \<and> n \<noteq> 215) then n + 32 else n)"
  by (simp add: str_lower_char_def Let_def)

lemma str_lower_char_idem: "str_lower_char (str_lower_char c) = str_lower_char c"
proof -
  let ?n = "of_char (str_lower_char c) :: nat"
  have "\<not> ((65 \<le> ?n \<and> ?n \<le> 90) \<or> (192 \<le> ?n \<and> ?n \<le> 222 \<and> ?n \<noteq> 215))"
    by (auto simp add: of_char_str_lower_char Let_def)
  then show ?thesis
    unfolding str_lower_char_def [of "str_lower_char c"] Let_def by presburger
qed

lemma str_lower_idem: "str_lower (str_lower s) = str_lower s"
  by (simp add: str_lower_def str_lower_char_idem)



section \<open>The current user, and rows found by key\<close>

lemma current_user_in_users:
  "current_user sess d = Some cu \<Longrightarrow> cu \<in> set (users d) \<and> sess = Some (user_id cu)"
  by (auto simp add: current_user_def load_user_def find_Some_iff split: option.splits)

lemma current_user_find_self:
  "current_user sess d = Some cu \<Longrightarrow> find (\<lambda>u. user_id u = user_id cu) (users d) = Some cu"
  by (auto simp add: current_user_def load_user_def find_Some_iff split: option.splits)

lemma find_by_key:
  "x \<in> set xs \<Longrightarrow> \<exists>y. find (\<lambda>z. key z = key x) xs = Some y \<and> key y = key x \<and> y \<in> set xs"
  by (cases "find (\<lambda>z. key z = key x) xs") (auto simp add: find_None_iff find_Some_iff)

section \<open>What the cascades delete\<close>

lemma fold_session_delete_job:
  "fold session_delete_job ids d =
     d\<lparr>applications := filter (\<lambda>a. app_job_id a \<notin> set ids) (applications d),
       jobs := filter (\<lambda>j. job_id j \<notin> set ids) (jobs d)\<rparr>"
proof (induction ids arbitrary: d)
  case Nil
  show ?case by simp
next
  case (Cons i ids)
  have "fold session_delete_job (i # ids) d = fold session_delete_job ids (session_delete_job i d)"
    by simp
  also have "\<dots> = (session_delete_job i d)
      \<lparr>applications := filter (\<lambda>a. app_job_id a \<notin> set ids) (applications (session_delete_job i d)),
       jobs := filter (\<lambda>j. job_id j \<notin> set ids) (jobs (session_delete_job i d))\<rparr>"
    by (rule Cons.IH)
  also have "\<dots> = d\<lparr>applications := filter (\<lambda>a. app_job_id a \<notin> set (i # ids)) (applications d),
       jobs := filter (\<lambda>j. job_id j \<notin> set (i # ids)) (jobs d)\<rparr>"
    by (simp add: session_delete_job_def conj_commute)
  finally show ?case .
qed

lemma session_delete_user_tables:
  "users (session_delete_user uid d) = filter (\<lambda>u. user_id u \<noteq> uid) (users d)"
  "jobs (session_delete_user uid d)
     = filter (\<lambda>j. job_id j \<notin> job_id ` set (posted_jobs uid d)) (jobs d)"
  "applications (session_delete_user uid d)
     = filter (\<lambda>a. applicant_id a \<noteq> uid \<and> app_job_id a \<notin> job_id ` set (posted_jobs uid d))
         (applications d)"
  "uploads (session_delete_user uid d) = uploads d"
  by (simp_all add: session_delete_user_def Let_def fold_session_delete_job conj_commute)

section \<open>Who may post a job\<close>

text \<open>
  Claim C9. For a logged-in user, \<open>create_job\<close> answers \<open>Forbidden\<close> exactly when neither
  \<open>is_employer\<close> nor \<open>is_admin\<close> is set, and then the state is unchanged (no job is
  stored); with either flag the request passes the gate.
\<close>

theorem create_job_requires_employer_or_admin:
  assumes "current_user sess d = Some cu"
  shows "(fst (create_job sess req now d) = Inl Forbidden) = (\<not> is_employer cu \<and> \<not> is_admin cu)
       \<and> (\<not> is_employer cu \<and> \<not> is_admin cu \<longrightarrow> snd (create_job sess req now d) = d)"
  using assms by (simp add: create_job_def Let_def)

theorem create_job_requires_employer_or_admin_witness:
  "create_job (Some 3) (post_request [(''job_title'', ''T''), (''company'', ''C''), (''description'', ''D'')]) 9 db0
     = (Inl Forbidden, db0)
   \<and> fst (create_job (Some 2) (post_request [(''job_title'', ''T''), (''company'', ''C''), (''description'', ''D'')]) 9 db0)
     = Inr (Redirect ''job_detail'' (Some 2))"
proof -
  have b: "current_user (Some 3) db0 = Some bob" and fb: "\<not> is_employer bob \<and> \<not> is_admin bob"
    by code_simp+
  have a: "current_user (Some 2) db0 = Some alice"
    by code_simp
  have r: "fst (create_job (Some 2) (post_request [(''job_title'', ''T''), (''company'', ''C''), (''description'', ''D'')]) 9 db0)
     = Inr (Redirect ''job_detail'' (Some 2))"
    by code_simp
  from create_job_requires_employer_or_admin [OF b, of "post_request [(''job_title'', ''T''), (''company'', ''C''), (''description'', ''D'')]" 9] fb r
  show ?thesis by (metis prod.collapse)
qed

section \<open>An administrator cannot delete their own account\<close>

text \<open>
  Claim C8. For an administrator, \<open>admin_delete_user\<close> on their own id answers \<open>Conflict\<close>
  and leaves the state as it was, so that their row is still in the user table; on the id
  of any other user of the table the deletion is carried out: the target is gone afterwards
  and the administrator remains.
\<close>

theorem admin_delete_user_not_self:
  assumes "current_user sess d = Some cu" and "is_admin cu" and "req_method req = POST"
  shows "admin_delete_user sess (user_id cu) req d = (Inl Conflict, d) \<and> cu \<in> set (users d)
       \<and> (\<forall>t \<in> set (users d). user_id t \<noteq> user_id cu \<longrightarrow>
            admin_delete_user sess (user_id t) req d
              = (Inr (Redirect ''admin_users'' None), session_delete_user (user_id t) d)
            \<and> t \<notin> set (users (session_delete_user (user_id t) d))
            \<and> cu \<in> set (users (session_delete_user (user_id t) d)))"
proof (intro conjI ballI impI)
  show "admin_delete_user sess (user_id cu) req d = (Inl Conflict, d)"
    using assms current_user_find_self [OF assms(1)] by (simp add: admin_delete_user_def)
  show in_users: "cu \<in> set (users d)"
    using current_user_in_users [OF assms(1)] by simp
  fix t assume t: "t \<in> set (users d)" and ne: "user_id t \<noteq> user_id cu"
  from find_by_key [OF t, of user_id] obtain y
    where y: "find (\<lambda>z. user_id z = user_id t) (users d) = Some y" "user_id y = user_id t"
    by blast
  show "admin_delete_user sess (user_id t) req d
          = (Inr (Redirect ''admin_users'' None), session_delete_user (user_id t) d)"
    using assms y ne by (simp add: admin_delete_user_def)
  show "t \<notin> set (users (session_delete_user (user_id t) d))"
    by (simp add: session_delete_user_tables)
  show "cu \<in> set (users (session_delete_user (user_id t) d))"
    using in_users ne by (simp add: session_delete_user_tables)
qed

theorem admin_delete_user_not_self_witness:
  "admin_delete_user (Some 1) 1 (post_request []) db0 = (Inl Conflict, db0)
   \<and> site_admin \<in> set (users db0)
   \<and> admin_delete_user (Some 1) 3 (post_request []) db0
       = (Inr (Redirect ''admin_users'' None), session_delete_user 3 db0)
   \<and> bob \<notin> set (users (session_delete_user 3 db0))
   \<and> site_admin \<in> set (users (session_delete_user 3 db0))"
proof -
  have cu: "current_user (Some 1) db0 = Some site_admin" and adm: "is_admin site_admin"
    and post: "req_method (post_request []) = POST"
    and ids: "user_id site_admin = 1" "user_id bob = 3"
    and target: "bob \<in> set (users db0)"
    by code_simp+
  from admin_delete_user_not_self [OF cu adm post] target ids
  show ?thesis by fastforce
qed

section \<open>Registration: the two password fields\<close>

text \<open>
  Claim C10. When the \<open>password\<close> and \<open>confirm\<close> fields of the form differ, \<open>register\<close>
  creates no user (state and session are unchanged), and the registration request (a POST
  by a client that is not logged in, carrying the \<open>email\<close> field) fails with
  \<open>ValidationError\<close>.
\<close>

theorem register_password_mismatch:
  assumes "get_default (form req) ''password'' [] \<noteq> get_default (form req) ''confirm'' []"
  shows "snd (register h sess req now d) = (sess, d)
       \<and> (current_user sess d = None \<and> req_method req = POST \<and> map_of (form req) ''email'' \<noteq> None
            \<longrightarrow> fst (register h sess req now d) = Inl ValidationError)"
  using assms by (auto simp add: register_def Let_def split: option.splits)


theorem register_password_mismatch_witness:
  "register example_hash None
     (post_request [(''fullname'', ''Carol''), (''email'', ''carol@x.com''),
                    (''password'', ''secret''), (''confirm'', ''secert'')]) 9 db0
   = (Inl ValidationError, None, db0)"
proof -
  let ?req = "post_request [(''fullname'', ''Carol''), (''email'', ''carol@x.com''),
                    (''password'', ''secret''), (''confirm'', ''secert'')]"
  have differ: "get_default (form ?req) ''password'' [] \<noteq> get_default (form ?req) ''confirm'' []"
    and anon: "current_user None db0 = None" and post: "req_method ?req = POST"
    and mail: "map_of (form ?req) ''email'' \<noteq> None"
    by code_simp+
  from register_password_mismatch [OF differ, of example_hash None 9 db0] anon post mail
  show ?thesis by (metis prod.collapse)
qed

section \<open>One application per applicant and job\<close>

lemma find_None_filter: "find P xs = None \<longleftrightarrow> filter P xs = []"
  by (induction xs) auto

lemma find_job_id: "find (\<lambda>j. job_id j = jid) js = Some j \<Longrightarrow> job_id j = jid \<and> j \<in> set js"
  by (auto simp add: find_Some_iff)

lemma find_application_None:
  "find (\<lambda>a. app_job_id a = jid \<and> applicant_id a = uid) (applications d) = None
     \<longleftrightarrow> applications_of uid jid d = []"
  by (auto simp add: find_None_iff applications_of_def filter_empty_conv)

lemma current_user_users:
  "users d' = users d \<Longrightarrow> current_user sess d' = current_user sess d"
  by (cases sess) (simp_all add: current_user_def load_user_def)

lemma applications_of_insert:
  "applications_of uid jid (insert_application cu j c r now d) =
     applications_of uid jid d @
       (if user_id cu = uid \<and> job_id j = jid
        then [\<lparr>app_id = next_id (map app_id (applications d)), applicant_id = user_id cu,
               app_job_id = job_id j, cover_letter = Some c, resume_path = r,
               app_created_at = now\<rparr>]
        else [])"
  by (simp add: applications_of_def insert_application_def)

lemma insert_application_tables:
  "users (insert_application cu j c r now d) = users d"
  "jobs (insert_application cu j c r now d) = jobs d"
  "uploads (insert_application cu j c r now d) = uploads d"
  by (simp_all add: insert_application_def)

lemma apply_route_already_applied:
  assumes "current_user sess d = Some cu" and "find (\<lambda>j. job_id j = jid) (jobs d) = Some j"
    and "applications_of (user_id cu) jid d \<noteq> []"
  shows "apply_route sf sess jid req stamp now d = (Inl Conflict, d)"
proof -
  have "job_id j = jid"
    using find_job_id [OF assms(2)] by simp
  then have "find (\<lambda>a. app_job_id a = job_id j \<and> applicant_id a = user_id cu) (applications d)
      \<noteq> None"
    using assms(3) by (simp add: find_application_None)
  then show ?thesis
    using assms(1,2) by (simp add: apply_route_def)
qed

lemma apply_route_fresh:
  assumes "current_user sess d = Some cu" and "find (\<lambda>j. job_id j = jid) (jobs d) = Some j"
    and "applications_of (user_id cu) jid d = []"
  shows "apply_route sf sess jid req stamp now d =
     (if req_method req = POST then
        (case map_of (files req) ''resume'' of
           None \<Rightarrow> (Inr (Redirect ''job_detail'' (Some jid)),
                     insert_application cu j (strip (get_default (form req) ''cover_letter'' [])) None now d)
         | Some f \<Rightarrow>
             if filename f \<noteq> [] then
               (if allowed_file (filename f) then
                  (Inr (Redirect ''job_detail'' (Some jid)),
                   insert_application cu j (strip (get_default (form req) ''cover_letter'' []))
                     (Some (sf (str_nat (user_id cu) @ ''_'' @ str_int stamp @ ''_'' @ filename f))) now
                     (d\<lparr>uploads := (sf (str_nat (user_id cu) @ ''_'' @ str_int stamp @ ''_'' @ filename f),
                                     content f) # uploads d\<rparr>))
                else (Inl ValidationError, d))
             else (Inr (Redirect ''job_detail'' (Some jid)),
                   insert_application cu j (strip (get_default (form req) ''cover_letter'' [])) None now d))
      else (Inr (Render_template ''apply.html''), d))"
proof -
  have jid: "job_id j = jid"
    using find_job_id [OF assms(2)] by simp
  then have "find (\<lambda>a. app_job_id a = job_id j \<and> applicant_id a = user_id cu) (applications d)
      = None"
    using assms(3) by (simp add: find_application_None)
  then show ?thesis
    using assms(1,2) jid by (simp add: apply_route_def Let_def split: option.splits)
qed

lemma apply_route_created:
  assumes "current_user sess d = Some cu"
    and "apply_route sf sess jid req stamp now d = (Inr (Redirect ''job_detail'' jopt), d')"
  shows "\<exists>j c r up. find (\<lambda>j. job_id j = jid) (jobs d) = Some j
           \<and> applications_of (user_id cu) jid d = []
           \<and> d' = insert_application cu j c r now (d\<lparr>uploads := up\<rparr>)"
proof (cases "find (\<lambda>j. job_id j = jid) (jobs d)")
  case None
  with assms show ?thesis by (simp add: apply_route_def)
next
  case (Some j)
  show ?thesis
  proof (cases "applications_of (user_id cu) jid d = []")
    case False
    from apply_route_already_applied [OF assms(1) Some False] assms(2)
    show ?thesis by simp
  next
    case True
    let ?c = "strip (get_default (form req) ''cover_letter'' [])"
    note eq = assms(2) [unfolded apply_route_fresh [OF assms(1) Some True]]
    have "\<exists>r up. d' = insert_application cu j ?c r now (d\<lparr>uploads := up\<rparr>)"
    proof (cases "req_method req = POST")
      case False
      with eq show ?thesis by simp
    next
      case post: True
      show ?thesis
      proof (cases "map_of (files req) ''resume''")
        case None
        with eq post have "d' = insert_application cu j ?c None now (d\<lparr>uploads := uploads d\<rparr>)"
          by simp
        then show ?thesis by blast
      next
        case f: (Some f)
        show ?thesis
        proof (cases "filename f = []")
          case True
          with eq post f have "d' = insert_application cu j ?c None now (d\<lparr>uploads := uploads d\<rparr>)"
            by simp
          then show ?thesis by blast
        next
          case named: False
          show ?thesis
          proof (cases "allowed_file (filename f)")
            case False
            with eq post f named show ?thesis by simp
          next
            case True
            with eq post f named have "d' = insert_application cu j ?c
                (Some (sf (str_nat (user_id cu) @ ''_'' @ str_int stamp @ ''_'' @ filename f))) now
                (d\<lparr>uploads := (sf (str_nat (user_id cu) @ ''_'' @ str_int stamp @ ''_'' @ filename f),
                                content f) # uploads d\<rparr>)"
              by simp
            then show ?thesis by blast
          qed
        qed
      qed
    qed
    then show ?thesis
      using Some True by blast
  qed
qed

text \<open>
  Claim C2. When a call of \<open>apply\<close> by a logged-in user has created an application for a
  job, the table holds exactly one application of that user to that job, and every further
  call by the same user for the same job (whatever the request) fails with \<open>Conflict\<close> and
  leaves the state, hence that count of one, unchanged.
\<close>

theorem apply_once_per_pair:
  assumes "current_user sess d = Some cu"
    and "apply_route sf sess jid req stamp now d = (Inr (Redirect ''job_detail'' jopt), d')"
  shows "length (applications_of (user_id cu) jid d') = 1
       \<and> apply_route sf2 sess jid req2 stamp2 now2 d' = (Inl Conflict, d')"
proof -
  from apply_route_created [OF assms] obtain j c r up
    where j: "find (\<lambda>j. job_id j = jid) (jobs d) = Some j"
      and none: "applications_of (user_id cu) jid d = []"
      and d': "d' = insert_application cu j c r now (d\<lparr>uploads := up\<rparr>)"
    by blast
  have jid: "job_id j = jid"
    using find_job_id [OF j] by simp
  have "applications_of (user_id cu) jid (d\<lparr>uploads := up\<rparr>) = []"
    using none by (simp add: applications_of_def)
  then have one: "length (applications_of (user_id cu) jid d') = 1"
    by (simp add: d' applications_of_insert jid)
  have "users d' = users d"
    by (simp add: d' insert_application_tables)
  from current_user_users [OF this] have cu': "current_user sess d' = Some cu"
    using assms(1) by simp
  have j': "find (\<lambda>j. job_id j = jid) (jobs d') = Some j"
    using j by (simp add: d' insert_application_tables)
  have "applications_of (user_id cu) jid d' \<noteq> []"
    using one by auto
  from apply_route_already_applied [OF cu' j' this] one
  show ?thesis by simp
qed

theorem apply_once_per_pair_witness:
  "length (applications_of 3 1 db1) = 1
   \<and> apply_route example_secure_filename (Some 3) 1 (upload_request ''cv.pdf'') 7 7 db1
       = (Inl Conflict, db1)"
proof -
  have cu: "current_user (Some 3) db0 = Some bob"
    by code_simp
  have first: "apply_route example_secure_filename (Some 3) 1
      (post_request [(''cover_letter'', ''Hi'')]) 5 5 db0
      = (Inr (Redirect ''job_detail'' (Some 1)), db1)"
    by code_simp
  have "user_id bob = 3"
    by code_simp
  with apply_once_per_pair [OF cu first, of example_secure_filename "upload_request ''cv.pdf''" 7 7]
  show ?thesis by simp
qed

text \<open>A call of \<open>apply\<close> either leaves the state alone or adds one application of a pair
  that had none: no pair ever gets a second application.\<close>

lemma apply_route_keeps_pairs_single:
  assumes "apply_route sf sess jid req stamp now d = (res, d')"
    and "\<forall>uid j. length (applications_of uid j d) \<le> 1"
  shows "length (applications_of uid j d') \<le> 1"
proof (cases "d' = d")
  case True
  with assms(2) show ?thesis by simp
next
  case False
  from assms(1) False obtain cu where cu: "current_user sess d = Some cu"
    by (cases "current_user sess d") (auto simp add: apply_route_def)
  from assms(1) False cu obtain jb where jb: "find (\<lambda>j. job_id j = jid) (jobs d) = Some jb"
    by (cases "find (\<lambda>j. job_id j = jid) (jobs d)") (auto simp add: apply_route_def)
  have none: "applications_of (user_id cu) jid d = []"
  proof (rule ccontr)
    assume "applications_of (user_id cu) jid d \<noteq> []"
    from apply_route_already_applied [OF cu jb this] assms(1) False show False
      by simp
  qed
  have "res = Inr (Redirect ''job_detail'' (Some jid))"
    using assms(1) False
    unfolding apply_route_fresh [OF cu jb none]
    by (auto split: if_splits option.splits)
  with assms(1) have "apply_route sf sess jid req stamp now d
      = (Inr (Redirect ''job_detail'' (Some jid)), d')"
    by simp
  from apply_route_created [OF cu this] obtain jb' c r up
    where d': "d' = insert_application cu jb' c r now (d\<lparr>uploads := up\<rparr>)"
      and "find (\<lambda>j. job_id j = jid) (jobs d) = Some jb'"
    by blast
  with jb have jb': "job_id jb' = jid"
    using find_job_id by blast
  have same: "applications_of uid j (d\<lparr>uploads := up\<rparr>) = applications_of uid j d"
    by (simp add: applications_of_def)
  show ?thesis
  proof (cases "user_id cu = uid \<and> jid = j")
    case True
    with none show ?thesis
      by (simp add: d' applications_of_insert same jb')
  next
    case False
    with assms(2) show ?thesis
      by (auto simp add: d' applications_of_insert same jb')
  qed
qed

section \<open>The extension of an uploaded resume\<close>








text \<open>
  Whatever else holds of the call, a resume whose name is not allowed is never stored, and
  no application is stored with it.
\<close>

lemma apply_route_refused_resume_unchanged:
  assumes "map_of (files req) ''resume'' = Some f" and "filename f \<noteq> []"
    and "\<not> allowed_file (filename f)"
  shows "snd (apply_route sf sess jid req stamp now d) = d"
  using assms by (simp add: apply_route_def Let_def split: option.splits)

section \<open>Registration: the email is stored in lower case and is unique\<close>

lemma register_created:
  assumes "register h sess req now d = (res, sess', d')" and "users d' \<noteq> users d"
  shows "\<exists>e. map_of (form req) ''email'' = Some e
           \<and> find (\<lambda>u. email u = str_lower (strip e)) (users d) = None
           \<and> res = Inr (Redirect ''index'' None)
           \<and> sess' = Some (next_id (map user_id (users d)))
           \<and> d' = d\<lparr>users := users d @
                [\<lparr>user_id = next_id (map user_id (users d)),
                  fullname = strip (get_default (form req) ''fullname'' []),
                  email = str_lower (strip e),
                  password_hash = h (get_default (form req) ''password'' []),
                  is_admin = False,
                  is_employer = (map_of (form req) ''is_employer'' = Some ''on''),
                  user_created_at = now\<rparr>]\<rparr>"
proof (cases "map_of (form req) ''email''")
  case None
  with assms show ?thesis
    by (auto simp add: register_def Let_def split: if_splits)
next
  case (Some e)
  with assms show ?thesis
    by (auto simp add: register_def Let_def split: if_splits)
qed

lemma register_duplicate:
  assumes "current_user sess d = None" and "req_method req = POST"
    and "map_of (form req) ''email'' = Some e"
    and "strip (get_default (form req) ''fullname'' []) \<noteq> []"
    and "get_default (form req) ''password'' [] \<noteq> []"
    and "get_default (form req) ''confirm'' [] = get_default (form req) ''password'' []"
    and "u \<in> set (users d)" and "email u = str_lower (strip e)" and "email u \<noteq> []"
  shows "register h sess req now d = (Inl Conflict, sess, d)"
proof -
  have "find (\<lambda>u. email u = str_lower (strip e)) (users d) \<noteq> None"
    using assms(7,8) by (auto simp add: find_None_iff)
  moreover have "str_lower (strip e) \<noteq> []"
    using assms(8,9) by simp
  ultimately show ?thesis
    using assms(1-6) by (simp add: register_def Let_def)
qed

lemma register_nonempty_email:
  assumes "register h sess req now d = (res, sess', d')" and "users d' \<noteq> users d"
    and "map_of (form req) ''email'' = Some e"
  shows "str_lower (strip e) \<noteq> []"
  using assms by (auto simp add: register_def Let_def split: if_splits)

lemma register_unchanged_or_created:
  assumes "register h sess req now d = (res, sess', d')"
  shows "d' = d \<or> users d' \<noteq> users d"
  using assms by (auto simp add: register_def Let_def split: if_splits option.splits)

text \<open>
  Registration keeps every stored email in lower case, and against such a table an email
  that differs from a stored one in letter case only is refused.
\<close>

lemma register_keeps_emails_lower:
  assumes "register h sess req now d = (res, sess', d')"
    and "\<forall>u \<in> set (users d). str_lower (email u) = email u"
  shows "\<forall>u \<in> set (users d'). str_lower (email u) = email u"
proof (cases "users d' = users d")
  case True
  with assms(2) show ?thesis by simp
next
  case False
  from register_created [OF assms(1) False] obtain e where
    "users d' = users d @
       [\<lparr>user_id = next_id (map user_id (users d)),
         fullname = strip (get_default (form req) ''fullname'' []),
         email = str_lower (strip e),
         password_hash = h (get_default (form req) ''password'' []),
         is_admin = False,
         is_employer = (map_of (form req) ''is_employer'' = Some ''on''),
         user_created_at = now\<rparr>]"
    by auto
  with assms(2) show ?thesis
    by (auto simp add: str_lower_idem)
qed

lemma register_existing_email_any_case:
  assumes "current_user sess d = None" and "req_method req = POST"
    and "map_of (form req) ''email'' = Some e"
    and "strip (get_default (form req) ''fullname'' []) \<noteq> []"
    and "get_default (form req) ''password'' [] \<noteq> []"
    and "get_default (form req) ''confirm'' [] = get_default (form req) ''password'' []"
    and "u \<in> set (users d)" and "str_lower (email u) = email u" and "email u \<noteq> []"
    and "str_lower (strip e) = str_lower (email u)"
  shows "register h sess req now d = (Inl Conflict, sess, d)"
  using assms(1-7) by (rule register_duplicate) (simp_all add: assms(8,9,10))

text \<open>
  Claim C3. When a registration has created a user, the new row holds the email of the
  form trimmed and lowered as Python does it (\<open>str_lower (strip e)\<close>). Every later
  registration by a client that is not logged in, with all fields filled and matching
  passwords, whose email is equal to that one up to letter case (and surrounding white
  space) fails with \<open>Conflict\<close>, and the state is unchanged: no user is created.
\<close>

theorem register_email_lowercased_unique:
  assumes "register h sess req now d = (res, sess', d')" and "users d' \<noteq> users d"
    and "map_of (form req) ''email'' = Some e"
    and "current_user sess2 d' = None" and "req_method req2 = POST"
    and "map_of (form req2) ''email'' = Some e2"
    and "str_lower (strip e2) = str_lower (strip e)"
    and "strip (get_default (form req2) ''fullname'' []) \<noteq> []"
    and "get_default (form req2) ''password'' [] \<noteq> []"
    and "get_default (form req2) ''confirm'' [] = get_default (form req2) ''password'' []"
  shows "(\<exists>u. users d' = users d @ [u] \<and> email u = str_lower (strip e))
       \<and> register h2 sess2 req2 now2 d' = (Inl Conflict, sess2, d')"
proof -
  from register_created [OF assms(1,2)] assms(3)
  obtain u where u: "users d' = users d @ [u]" "email u = str_lower (strip e)"
    by auto
  have "u \<in> set (users d')"
    by (simp add: u(1))
  moreover have "email u = str_lower (strip e2)"
    by (simp add: u(2) assms(7))
  moreover have "email u \<noteq> []"
    using register_nonempty_email [OF assms(1,2,3)] by (simp add: u(2))
  ultimately have "register h2 sess2 req2 now2 d' = (Inl Conflict, sess2, d')"
    using assms(4,5,6,8,9,10) by (rule_tac register_duplicate) auto
  with u show ?thesis by blast
qed

theorem register_email_lowercased_unique_witness:
  "(\<exists>u. users (snd (snd (register example_hash None eva_request 9 db0))) = users db0 @ [u]
        \<and> email u = CHR 0xE9 # ''va@x.com'')
   \<and> register example_hash None eva_again_request 10
        (snd (snd (register example_hash None eva_request 9 db0)))
     = (Inl Conflict, None, snd (snd (register example_hash None eva_request 9 db0)))"
proof -
  let ?r = "register example_hash None eva_request 9 db0"
  have first: "?r = (fst ?r, fst (snd ?r), snd (snd ?r))"
    by simp
  have created: "users (snd (snd ?r)) \<noteq> users db0"
    by code_simp
  have e1: "map_of (form eva_request) ''email'' = Some (CHR 0xA0 # CHR 0xC9 # ''va@X.com '')"
    and post: "req_method eva_again_request = POST"
    and e2: "map_of (form eva_again_request) ''email'' = Some (CHR 0xE9 # ''VA@x.COM'')"
    and filled: "strip (get_default (form eva_again_request) ''fullname'' []) \<noteq> []"
      "get_default (form eva_again_request) ''password'' [] \<noteq> []"
      "get_default (form eva_again_request) ''confirm'' []
         = get_default (form eva_again_request) ''password'' []"
    and same: "str_lower (strip (CHR 0xE9 # ''VA@x.COM''))
         = str_lower (strip (CHR 0xA0 # CHR 0xC9 # ''va@X.com ''))"
    and stored: "str_lower (strip (CHR 0xA0 # CHR 0xC9 # ''va@X.com '')) = CHR 0xE9 # ''va@x.com''"
    by code_simp+
  have anon: "current_user None (snd (snd ?r)) = None"
    by (simp add: current_user_def)
  from register_email_lowercased_unique [OF first created e1 anon post e2 same filled,
      of example_hash 10]
  show ?thesis
    unfolding stored .
qed

section \<open>Deleting a job or a user\<close>

lemma posted_job_ids:
  assumes "distinct (map job_id (jobs d))" and "j \<in> set (jobs d)"
  shows "job_id j \<in> job_id ` set (posted_jobs uid d) \<longleftrightarrow> posted_by_id j = Some uid"
proof
  assume "job_id j \<in> job_id ` set (posted_jobs uid d)"
  then obtain j' where j': "j' \<in> set (jobs d)" "posted_by_id j' = Some uid" "job_id j' = job_id j"
    by (auto simp add: posted_jobs_def)
  from assms(1) have "inj_on job_id (set (jobs d))"
    by (simp add: distinct_map)
  with j'(1,3) assms(2) have "j' = j"
    by (auto dest: inj_onD)
  with j'(2) show "posted_by_id j = Some uid"
    by simp
next
  assume "posted_by_id j = Some uid"
  with assms(2) show "job_id j \<in> job_id ` set (posted_jobs uid d)"
    by (auto simp add: posted_jobs_def)
qed

lemma session_delete_user_jobs:
  assumes "distinct (map job_id (jobs d))"
  shows "jobs (session_delete_user uid d) = filter (\<lambda>j. posted_by_id j \<noteq> Some uid) (jobs d)"
  unfolding session_delete_user_tables
  by (rule filter_cong) (simp_all add: posted_job_ids [OF assms])

lemma session_delete_user_applications:
  "applications (session_delete_user uid d)
     = filter (\<lambda>a. applicant_id a \<noteq> uid
                 \<and> \<not> (\<exists>j \<in> set (jobs d). job_id j = app_job_id a \<and> posted_by_id j = Some uid))
         (applications d)"
  unfolding session_delete_user_tables
  by (rule filter_cong) (auto simp add: posted_jobs_def image_iff)

lemma delete_job_done:
  assumes "delete_job sess jid req d = (Inr r, d')"
  shows "d' = session_delete_job jid d"
proof -
  from assms obtain j where "find (\<lambda>j. job_id j = jid) (jobs d) = Some j"
      and "d' = session_delete_job (job_id j) d"
    by (auto simp add: delete_job_def split: if_splits option.splits)
  with find_job_id [of jid "jobs d" j] show ?thesis
    by simp
qed

lemma admin_delete_job_done:
  assumes "admin_delete_job sess jid req d = (Inr r, d')"
  shows "d' = session_delete_job jid d"
proof -
  from assms obtain j where "find (\<lambda>j. job_id j = jid) (jobs d) = Some j"
      and "d' = session_delete_job (job_id j) d"
    by (auto simp add: admin_delete_job_def split: if_splits option.splits)
  with find_job_id [of jid "jobs d" j] show ?thesis
    by simp
qed

lemma admin_delete_user_done:
  assumes "admin_delete_user sess uid req d = (Inr r, d')"
  shows "d' = session_delete_user uid d"
proof -
  from assms obtain u where "find (\<lambda>u. user_id u = uid) (users d) = Some u"
      and "d' = session_delete_user (user_id u) d"
    by (auto simp add: admin_delete_user_def split: if_splits option.splits)
  then show ?thesis
    by (auto simp add: find_Some_iff)
qed

text \<open>
  Claim C7. In a state whose primary keys are distinct: when \<open>delete_job\<close> (or
  \<open>admin_delete_job\<close>) succeeds, the job and exactly the applications to that job are
  gone, and every other row stays; when \<open>admin_delete_user\<close> succeeds, the user, exactly
  the jobs they posted, and exactly the applications they submitted or that were made to
  one of their jobs are gone, and every other row (and every uploaded file) stays.
\<close>

theorem delete_cascades:
  assumes "primary_keys d"
  shows "(delete_job sess jid req d = (Inr r1, d1) \<or> admin_delete_job sess jid req d = (Inr r1, d1)
            \<longrightarrow> users d1 = users d
              \<and> jobs d1 = filter (\<lambda>j. job_id j \<noteq> jid) (jobs d)
              \<and> applications d1 = filter (\<lambda>a. app_job_id a \<noteq> jid) (applications d)
              \<and> uploads d1 = uploads d)
       \<and> (admin_delete_user sess uid req d = (Inr r2, d2)
            \<longrightarrow> users d2 = filter (\<lambda>u. user_id u \<noteq> uid) (users d)
              \<and> jobs d2 = filter (\<lambda>j. posted_by_id j \<noteq> Some uid) (jobs d)
              \<and> applications d2 =
                  filter (\<lambda>a. applicant_id a \<noteq> uid
                             \<and> \<not> (\<exists>j \<in> set (jobs d). job_id j = app_job_id a
                                      \<and> posted_by_id j = Some uid))
                    (applications d)
              \<and> uploads d2 = uploads d)"
proof (intro conjI impI)
  assume "delete_job sess jid req d = (Inr r1, d1) \<or> admin_delete_job sess jid req d = (Inr r1, d1)"
  then have d1: "d1 = session_delete_job jid d"
    using delete_job_done admin_delete_job_done by blast
  show "users d1 = users d" "uploads d1 = uploads d"
    "jobs d1 = filter (\<lambda>j. job_id j \<noteq> jid) (jobs d)"
    "applications d1 = filter (\<lambda>a. app_job_id a \<noteq> jid) (applications d)"
    by (simp_all add: d1 session_delete_job_def)
next
  assume "admin_delete_user sess uid req d = (Inr r2, d2)"
  then have d2: "d2 = session_delete_user uid d"
    by (rule admin_delete_user_done)
  have keys: "distinct (map job_id (jobs d))"
    using assms by (simp add: primary_keys_def)
  show "users d2 = filter (\<lambda>u. user_id u \<noteq> uid) (users d)" "uploads d2 = uploads d"
    by (simp_all add: d2 session_delete_user_tables)
  show "jobs d2 = filter (\<lambda>j. posted_by_id j \<noteq> Some uid) (jobs d)"
    unfolding d2 by (rule session_delete_user_jobs [OF keys])
  show "applications d2 =
          filter (\<lambda>a. applicant_id a \<noteq> uid
                     \<and> \<not> (\<exists>j \<in> set (jobs d). job_id j = app_job_id a \<and> posted_by_id j = Some uid))
            (applications d)"
    unfolding d2 by (rule session_delete_user_applications)
qed


theorem delete_cascades_witness:
  "jobs (snd (delete_job (Some 2) 1 (post_request []) db2)) = [frontend_job]
   \<and> applications (snd (delete_job (Some 2) 1 (post_request []) db2))
       = [bob_second_application, alice_application]
   \<and> users (snd (delete_job (Some 2) 1 (post_request []) db2)) = users db2
   \<and> users (snd (admin_delete_user (Some 1) 2 (post_request []) db2)) = [site_admin, bob]
   \<and> jobs (snd (admin_delete_user (Some 1) 2 (post_request []) db2)) = [frontend_job]
   \<and> applications (snd (admin_delete_user (Some 1) 2 (post_request []) db2))
       = [bob_second_application]"
proof -
  let ?dj = "delete_job (Some 2) 1 (post_request []) db2"
  let ?du = "admin_delete_user (Some 1) 2 (post_request []) db2"
  have keys: "primary_keys db2"
    by code_simp
  have "fst ?dj = Inr (Redirect ''index'' None)"
    and "fst ?du = Inr (Redirect ''admin_users'' None)"
    by code_simp+
  then have dj: "?dj = (Inr (Redirect ''index'' None), snd ?dj)
      \<or> admin_delete_job (Some 2) 1 (post_request []) db2 = (Inr (Redirect ''index'' None), snd ?dj)"
    and du: "?du = (Inr (Redirect ''admin_users'' None), snd ?du)"
    by (metis prod.collapse)+
  have rows: "filter (\<lambda>j. job_id j \<noteq> 1) (jobs db2) = [frontend_job]"
    "filter (\<lambda>a. app_job_id a \<noteq> 1) (applications db2) = [bob_second_application, alice_application]"
    "filter (\<lambda>u. user_id u \<noteq> 2) (users db2) = [site_admin, bob]"
    "filter (\<lambda>j. posted_by_id j \<noteq> Some 2) (jobs db2) = [frontend_job]"
    "filter (\<lambda>a. applicant_id a \<noteq> 2
               \<and> \<not> (\<exists>j \<in> set (jobs db2). job_id j = app_job_id a \<and> posted_by_id j = Some 2))
       (applications db2) = [bob_second_application]"
    by code_simp+
  from delete_cascades [OF keys, of "Some 2" 1 "post_request []" _ "snd ?dj", THEN conjunct1, rule_format, OF dj]
    delete_cascades [OF keys, of "Some 1" _ "post_request []" _ _ 2 _ "snd ?du", THEN conjunct2, rule_format, OF du]
  show ?thesis
    unfolding rows by simp
qed

section \<open>The job list: order\<close>

lemma mset_order_by_created_at_desc [simp]: "mset (order_by_created_at_desc js) = mset js"
  by (simp add: order_by_created_at_desc_def)

lemma newest_first: "sorted_wrt (\<lambda>a b. created_at a \<ge> created_at b) (order_by_created_at_desc js)"
proof -
  have "sorted (map (\<lambda>j. - created_at j) (order_by_created_at_desc js))"
    by (simp add: order_by_created_at_desc_def)
  then show ?thesis
    by (simp add: sorted_map)
qed

lemma strictly_newest_first:
  assumes "distinct (map created_at js)"
  shows "sorted_wrt (\<lambda>a b. created_at a > created_at b) (order_by_created_at_desc js)"
proof -
  let ?r = "order_by_created_at_desc js"
  have "mset (map created_at ?r) = mset (map created_at js)"
    by simp
  then have "distinct (map created_at ?r)"
    using assms mset_eq_imp_distinct_iff by blast
  then have "distinct (map (\<lambda>j. - created_at j) ?r)"
    by (simp add: distinct_map inj_on_def)
  moreover have "sorted (map (\<lambda>j. - created_at j) ?r)"
    by (simp add: order_by_created_at_desc_def)
  ultimately have "sorted_wrt (<) (map (\<lambda>j. - created_at j) ?r)"
    by (simp add: strict_sorted_iff)
  then show ?thesis
    by (simp add: sorted_wrt_map)
qed

text \<open>What \<open>index\<close> selects, with the four filters read from the request.\<close>

lemma index_jobs:
  "fst (index req d) =
     order_by_created_at_desc
       (filter (\<lambda>j.
            (strip (get_default (args req) ''q'' []) = []
             \<or> ilike (job_title j) (''%'' @ strip (get_default (args req) ''q'' []) @ ''%'')
             \<or> ilike (description j) (''%'' @ strip (get_default (args req) ''q'' []) @ ''%''))
          \<and> (strip (get_default (args req) ''company'' []) = []
             \<or> lower (company j) = lower (strip (get_default (args req) ''company'' [])))
          \<and> (strip (get_default (args req) ''location'' []) = []
             \<or> lower_eq_opt (location j) (strip (get_default (args req) ''location'' [])))
          \<and> (strip (get_default (args req) ''job_type'' []) = []
             \<or> lower_eq_opt (job_type j) (strip (get_default (args req) ''job_type'' []))))
        (jobs d))"
  by (simp add: index_def Let_def)

text \<open>
  Claim C4, as amended. In every state, without filters (each of the four parameters
  absent or blank), \<open>index\<close> lists all the jobs of the table, each exactly once, newest
  first: no job is followed by a newer one. The order is strictly descending whenever the
  creation times are distinct.
\<close>

theorem index_no_filters_newest_first:
  assumes "strip (get_default (args req) ''q'' []) = []"
    and "strip (get_default (args req) ''company'' []) = []"
    and "strip (get_default (args req) ''location'' []) = []"
    and "strip (get_default (args req) ''job_type'' []) = []"
  shows "mset (fst (index req d)) = mset (jobs d)
       \<and> sorted_wrt (\<lambda>a b. created_at a \<ge> created_at b) (fst (index req d))
       \<and> (distinct (map created_at (jobs d)) \<longrightarrow>
            sorted_wrt (\<lambda>a b. created_at a > created_at b) (fst (index req d)))"
proof -
  have "fst (index req d) = order_by_created_at_desc (jobs d)"
    by (simp add: index_jobs assms)
  then show ?thesis
    by (simp add: newest_first strictly_newest_first)
qed

theorem index_no_filters_newest_first_witness:
  "fst (index (search_request [(''q'', ''  '')]) db2) = [frontend_job, backend_job]
   \<and> mset (fst (index (search_request [(''q'', ''  '')]) db2)) = mset (jobs db2)
   \<and> sorted_wrt (\<lambda>a b. created_at a > created_at b) (fst (index (search_request [(''q'', ''  '')]) db2))"
proof -
  let ?req = "search_request [(''q'', ''  '')]"
  have none: "strip (get_default (args ?req) ''q'' []) = []"
      "strip (get_default (args ?req) ''company'' []) = []"
      "strip (get_default (args ?req) ''location'' []) = []"
      "strip (get_default (args ?req) ''job_type'' []) = []"
    and times: "distinct (map created_at (jobs db2))"
    and listed: "fst (index ?req db2) = [frontend_job, backend_job]"
    by code_simp+
  from index_no_filters_newest_first [OF none, of db2] times listed
  show ?thesis by simp
qed

text \<open>
  Claim C4 as stated fails on a tie: two jobs created at the same instant are listed one
  after the other, and the list is not strictly descending.
\<close>

theorem index_tie_counterexample:
  "created_at backend_job = created_at tied_job
   \<and> mset (fst (index (search_request []) db_tie)) = mset [backend_job, tied_job]
   \<and> \<not> sorted_wrt (\<lambda>a b. created_at a > created_at b) (fst (index (search_request []) db_tie))"
  by code_simp

section \<open>The job list: the filters\<close>

lemma pattern_compare_percent_all [simp]: "pattern_compare ''%'' s"
  by (induction s) simp_all
























section \<open>Title, company and description of a stored job\<close>

text \<open>\<open>create_job\<close> stores a job only when the three fields are filled.\<close>

lemma create_job_keeps_jobs_filled:
  assumes "create_job sess req now d = (res, d')" and "\<forall>j \<in> set (jobs d). job_filled j"
  shows "\<forall>j \<in> set (jobs d'). job_filled j"
  using assms
  by (auto simp add: create_job_def Let_def job_filled_def split: option.splits if_splits)

text \<open>
  Claim C1. \<open>edit_job\<close> writes the fields of the form without the check \<open>create_job\<close>
  makes: in a state where the three fields of every job are filled, the poster of a job
  who submits a blank title gets the job stored with an empty title.
\<close>

theorem edit_job_blank_title:
  "list_all job_filled (jobs db0)
   \<and> edit_job (Some 2) 1 (post_request [(''job_title'', ''  '')]) db0
       = (Inr (Redirect ''job_detail'' (Some 1)), db0\<lparr>jobs := [backend_job\<lparr>job_title := []\<rparr>]\<rparr>)
   \<and> \<not> job_filled (backend_job\<lparr>job_title := []\<rparr>)"
  by code_simp

end
